theory Spec2Isabelle
  imports Complex_Main "HOL-Library.Sublist"
begin

section \<open>JavaScript values used by server.js\<close>

text \<open>
  Strings are lists of code units; only code units below 256 occur in a catalog, so
  \<open>char\<close> is enough. A Number is a double: it is modelled as an exact real, or one of
  the three non-finite values. Rounding, overflow and the sign of zero are not modelled.
\<close>

datatype jsnum = Fin real | PosInf | NegInf | NaN

text \<open>White space as \<open>String.prototype.trim\<close> and \<open>parseInt\<close> see it (code units
  below 256): TAB, LF, VT, FF, CR, SP, NBSP.\<close>

definition js_whitespace :: "char \<Rightarrow> bool" where
  "js_whitespace c =
     (of_char c = (9::nat) \<or> of_char c = (10::nat) \<or> of_char c = (11::nat) \<or>
      of_char c = (12::nat) \<or> of_char c = (13::nat) \<or> of_char c = (32::nat) \<or>
      of_char c = (160::nat))"

definition js_trim :: "string \<Rightarrow> string" where
  "js_trim s = rev (dropWhile js_whitespace (rev (dropWhile js_whitespace s)))"

text \<open>\<open>s.split('\n')\<close>: the pieces between line feeds; never an empty array.\<close>

fun split_on :: "char \<Rightarrow> string \<Rightarrow> string \<Rightarrow> string list" where
  "split_on d cur [] = [rev cur]"
| "split_on d cur (c # cs) =
     (if c = d then rev cur # split_on d [] cs else split_on d (c # cur) cs)"

definition js_split_nl :: "string \<Rightarrow> string list" where
  "js_split_nl s = split_on (CHR 0x0A) [] s"

definition startsWith :: "string \<Rightarrow> string \<Rightarrow> bool" where
  "startsWith s p = (take (length p) s = p)"

text \<open>\<open>s.substring(a, b)\<close>: both ends are clamped to the length and swapped when
  \<open>a > b\<close>.\<close>

definition js_substring :: "string \<Rightarrow> nat \<Rightarrow> nat \<Rightarrow> string" where
  "js_substring s a b =
     (let a' = min a (length s); b' = min b (length s);
          lo = min a' b'; hi = max a' b'
      in take (hi - lo) (drop lo s))"

text \<open>\<open>xs[i]\<close> on an array: \<open>undefined\<close> (here \<open>None\<close>) out of range.\<close>

definition js_index :: "'a list \<Rightarrow> nat \<Rightarrow> 'a option" where
  "js_index xs i = (if i < length xs then Some (xs ! i) else None)"

subsection \<open>parseInt with no radix argument\<close>

definition digit_of :: "nat \<Rightarrow> char \<Rightarrow> nat option" where
  "digit_of radix c =
     (let n = (of_char c :: nat);
          v = (if 48 \<le> n \<and> n \<le> 57 then Some (n - 48)
               else if 97 \<le> n \<and> n \<le> 122 then Some (n - 87)
               else if 65 \<le> n \<and> n \<le> 90 then Some (n - 55)
               else None)
      in case v of None \<Rightarrow> None | Some d \<Rightarrow> if d < radix then Some d else None)"

definition digits_value :: "nat \<Rightarrow> string \<Rightarrow> nat" where
  "digits_value radix ds =
     foldl (\<lambda>acc c. acc * radix + (case digit_of radix c of Some d \<Rightarrow> d | None \<Rightarrow> 0)) 0 ds"

text \<open>
  ECMAScript \<open>parseInt(string)\<close>: leading white space is dropped, then an optional sign,
  then a \<open>0x\<close>/\<open>0X\<close> prefix selects radix 16 (radix 10 otherwise); the value is that of
  the longest run of digits of the radix, and \<open>NaN\<close> when the run is empty.
\<close>

definition js_parseInt :: "string \<Rightarrow> jsnum" where
  "js_parseInt inputString =
     (let S = dropWhile js_whitespace inputString;
          negative = (case S of [] \<Rightarrow> False | c # _ \<Rightarrow> c = CHR ''-'');
          S1 = (case S of [] \<Rightarrow> []
                | c # r \<Rightarrow> if c = CHR ''+'' \<or> c = CHR ''-'' then r else S);
          hex = (startsWith S1 ''0x'' \<or> startsWith S1 ''0X'');
          R = (if hex then 16 else 10);
          S2 = (if hex then drop 2 S1 else S1);
          Z = takeWhile (\<lambda>c. digit_of R c \<noteq> None) S2
      in if Z = [] then NaN
         else if negative then Fin (- real (digits_value R Z))
         else Fin (real (digits_value R Z)))"

section \<open>The catalog parser: parseTLEs\<close>

text \<open>The object \<open>{ noradId, line1, line2 }\<close> pushed by the loop of \<open>parseTLEs\<close>.\<close>

record tle =
  noradId :: jsnum
  line1 :: string
  line2 :: string

text \<open>
  The loop \<open>for (let i = 0; i < lines.length - 1; i += 3)\<close>, with \<open>sats\<close> as the
  accumulator. \<open>lines[i + 1]\<close> and \<open>lines[i + 2]\<close> may be \<open>undefined\<close>; the optional
  call \<open>?.startsWith\<close> is then falsy. \<open>name\<close> is computed and never used.
\<close>

function parseTLEs_loop :: "string list \<Rightarrow> nat \<Rightarrow> tle list \<Rightarrow> tle list" where
  "parseTLEs_loop lines i sats =
     (if int i < int (length lines) - 1 then
        (let name = (case js_index lines i of Some l \<Rightarrow> js_trim l | None \<Rightarrow> []);
             l1 = js_index lines (i + 1);
             l2 = js_index lines (i + 2)
         in parseTLEs_loop lines (i + 3)
              (case l1 of
                 None \<Rightarrow> sats
               | Some a \<Rightarrow>
                  (case l2 of
                     None \<Rightarrow> sats
                   | Some b \<Rightarrow>
                       if startsWith a ''1 '' \<and> startsWith b ''2 ''
                       then sats @ [\<lparr>noradId = js_parseInt (js_substring a 2 7),
                                    line1 = a, line2 = b\<rparr>]
                       else sats)))
      else sats)"
  by pat_completeness auto
termination
  by (relation "measure (\<lambda>(lines, i, sats). length lines - i)") auto

declare parseTLEs_loop.simps [simp del]

definition parseTLEs :: "string \<Rightarrow> tle list" where
  "parseTLEs tleText =
     (let lines = js_split_nl (js_trim tleText);
          sats = parseTLEs_loop lines 0 []
      in take 30 sats)"

section \<open>Arithmetic on Numbers\<close>

text \<open>
  Operations on Numbers without rounding error: on finite operands they are the
  operations of the reals; a zero divisor counts as \<open>+0\<close>. The handler's model uses them
  for the coverage radius, which is reported as computed. \<open>Math.round\<close>, \<open>toFixed\<close>
  and the comparisons are exact on doubles as well.
\<close>

definition js_isFinite :: "jsnum \<Rightarrow> bool" where
  "js_isFinite x = (case x of Fin _ \<Rightarrow> True | _ \<Rightarrow> False)"

fun js_gt :: "jsnum \<Rightarrow> jsnum \<Rightarrow> bool" where
  "js_gt (Fin a) (Fin b) = (a > b)"
| "js_gt NaN _ = False"
| "js_gt _ NaN = False"
| "js_gt PosInf PosInf = False"
| "js_gt PosInf _ = True"
| "js_gt _ PosInf = False"
| "js_gt NegInf _ = False"
| "js_gt _ NegInf = True"

definition js_lt :: "jsnum \<Rightarrow> jsnum \<Rightarrow> bool" where
  "js_lt x y = js_gt y x"

fun js_add :: "jsnum \<Rightarrow> jsnum \<Rightarrow> jsnum" where
  "js_add (Fin a) (Fin b) = Fin (a + b)"
| "js_add NaN _ = NaN"
| "js_add _ NaN = NaN"
| "js_add PosInf NegInf = NaN"
| "js_add NegInf PosInf = NaN"
| "js_add PosInf _ = PosInf"
| "js_add _ PosInf = PosInf"
| "js_add NegInf _ = NegInf"
| "js_add _ NegInf = NegInf"

fun js_neg :: "jsnum \<Rightarrow> jsnum" where
  "js_neg (Fin a) = Fin (- a)"
| "js_neg PosInf = NegInf"
| "js_neg NegInf = PosInf"
| "js_neg NaN = NaN"

definition js_sub :: "jsnum \<Rightarrow> jsnum \<Rightarrow> jsnum" where
  "js_sub x y = js_add x (js_neg y)"

text \<open>The sign of a Number that is not \<open>NaN\<close>, zero counted as positive.\<close>

fun js_nonneg :: "jsnum \<Rightarrow> bool" where
  "js_nonneg (Fin a) = (0 \<le> a)"
| "js_nonneg PosInf = True"
| "js_nonneg NegInf = False"
| "js_nonneg NaN = True"

fun js_mul :: "jsnum \<Rightarrow> jsnum \<Rightarrow> jsnum" where
  "js_mul (Fin a) (Fin b) = Fin (a * b)"
| "js_mul NaN _ = NaN"
| "js_mul _ NaN = NaN"
| "js_mul x y =
     (if x = Fin 0 \<or> y = Fin 0 then NaN
      else if js_nonneg x = js_nonneg y then PosInf else NegInf)"

fun js_div :: "jsnum \<Rightarrow> jsnum \<Rightarrow> jsnum" where
  "js_div (Fin a) (Fin b) =
     (if b = 0 then (if a = 0 then NaN else if 0 < a then PosInf else NegInf)
      else Fin (a / b))"
| "js_div NaN _ = NaN"
| "js_div _ NaN = NaN"
| "js_div (Fin a) _ = Fin 0"
| "js_div x (Fin b) = (if js_nonneg x = (0 \<le> b) then PosInf else NegInf)"
| "js_div _ _ = NaN"

text \<open>\<open>Math.acos\<close>: \<open>NaN\<close> outside \<open>[-1, 1]\<close>.\<close>

fun js_acos :: "jsnum \<Rightarrow> jsnum" where
  "js_acos (Fin a) = (if - 1 \<le> a \<and> a \<le> 1 then Fin (arccos a) else NaN)"
| "js_acos _ = NaN"

text \<open>The logarithm to base 10, with the special cases of \<open>Math.log10\<close>.\<close>

fun js_log10 :: "jsnum \<Rightarrow> jsnum" where
  "js_log10 (Fin a) = (if 0 < a then Fin (log 10 a) else if a = 0 then NegInf else NaN)"
| "js_log10 PosInf = PosInf"
| "js_log10 _ = NaN"

text \<open>\<open>Math.round\<close>: the nearest integer, a tie going up.\<close>

fun js_round :: "jsnum \<Rightarrow> jsnum" where
  "js_round (Fin a) = Fin (of_int \<lfloor>a + 1 / 2\<rfloor>)"
| "js_round x = x"

text \<open>
  \<open>+(x).toFixed(1)\<close>: the nearest multiple of one tenth, a tie going away from zero;
  from \<open>10^21\<close> on, and for a non-finite \<open>x\<close>, \<open>toFixed\<close> prints \<open>x\<close> itself and the
  unary plus reads it back.
\<close>

fun js_toFixed1 :: "jsnum \<Rightarrow> jsnum" where
  "js_toFixed1 (Fin a) =
     (if 10 ^ 21 \<le> \<bar>a\<bar> then Fin a
      else Fin (sgn a * of_int \<lfloor>\<bar>a\<bar> * 10 + 1 / 2\<rfloor> / 10))"
| "js_toFixed1 x = x"

section \<open>Property lookup on an object literal\<close>

text \<open>
  \<open>obj[key]\<close> on an object literal finds the literal's own properties and, failing
  that, those inherited from \<open>Object.prototype\<close>, all of which are functions or objects.
\<close>

definition Object_prototype_keys :: "string list" where
  "Object_prototype_keys =
     [''constructor'', ''__defineGetter__'', ''__defineSetter__'', ''hasOwnProperty'',
      ''__lookupGetter__'', ''__lookupSetter__'', ''isPrototypeOf'',
      ''propertyIsEnumerable'', ''toString'', ''valueOf'', ''__proto__'',
      ''toLocaleString'']"

datatype 'a property = Own 'a | Inherited | Undefined

definition js_get :: "(string \<times> 'a) list \<Rightarrow> string \<Rightarrow> 'a property" where
  "js_get obj k =
     (case map_of obj k of
        Some v \<Rightarrow> Own v
      | None \<Rightarrow> if List.member Object_prototype_keys k then Inherited else Undefined)"

section \<open>The TLE cache: isStale and getConstellationTLEs\<close>

text \<open>
  The cache directory holds one file per group; a file has its text and its modification
  time in milliseconds. The world a call runs in: the files, the clock (\<open>Date.now()\<close>),
  and the URLs requested so far. Paths are taken relative to the directory of server.js.
\<close>

record cache_file =
  file_text :: string
  mtimeMs :: real

record world =
  files :: "string \<rightharpoonup> cache_file"
  clock :: real
  requested :: "string list"

text \<open>
  What \<open>axios.get\<close> gives for a URL: \<open>NetError\<close> when the awaited call throws (a
  timeout after 10 s, a status outside 2xx, no connection), \<open>NetData d\<close> when it returns
  a response with body \<open>d\<close>.
\<close>

datatype net_result = NetError | NetData string

datatype error =
    UnknownConstellation string
  | NotAFunction
  | NoCacheAvailable string
  | ENOENT string

definition MIN_REFRESH_MS :: real where
  "MIN_REFRESH_MS = 2 * 60 * 60 * 1000"

definition CACHE_DIR :: string where
  "CACHE_DIR = ''tle-cache''"

definition path_join :: "string \<Rightarrow> string \<Rightarrow> string" where
  "path_join d f = d @ ''/'' @ f"

definition isStale :: "world \<Rightarrow> string \<Rightarrow> bool" where
  "isStale w filePath =
     (case files w filePath of
        None \<Rightarrow> True
      | Some stats \<Rightarrow> (let ageMs = clock w - mtimeMs stats in ageMs > MIN_REFRESH_MS))"

definition readFileSync :: "world \<Rightarrow> string \<Rightarrow> error + string" where
  "readFileSync w p =
     (case files w p of None \<Rightarrow> Inl (ENOENT p) | Some f \<Rightarrow> Inr (file_text f))"

definition writeFileSync :: "world \<Rightarrow> string \<Rightarrow> string \<Rightarrow> world" where
  "writeFileSync w p d = w\<lparr>files := (files w)(p \<mapsto> \<lparr>file_text = d, mtimeMs = clock w\<rparr>)\<rparr>"

definition js_toUpperCase :: "string \<Rightarrow> string" where
  "js_toUpperCase s =
     map (\<lambda>c. if 97 \<le> (of_char c :: nat) \<and> (of_char c :: nat) \<le> 122
              then char_of (of_char c - (32::nat)) else c) s"

definition groups :: "(string \<times> string) list" where
  "groups = [(''iridium'', ''iridium''), (''starlink'', ''starlink''), (''kuiper'', ''kuiper'')]"

definition catalog_url :: "string \<Rightarrow> string" where
  "catalog_url grp =
     ''https://celestrak.org/NORAD/elements/gp.php?GROUP='' @ js_toUpperCase grp @
     ''&FORMAT=TLE''"

text \<open>The \<open>catch\<close> block of \<open>getConstellationTLEs\<close>: the stale file if there is one.\<close>

definition fetch_failed :: "string \<Rightarrow> string \<Rightarrow> world \<Rightarrow> (error + tle list) \<times> world" where
  "fetch_failed grp cachePath w =
     (if files w cachePath \<noteq> None then
        (case readFileSync w cachePath of
           Inl e \<Rightarrow> (Inl e, w)
         | Inr tleData \<Rightarrow> (Inr (parseTLEs tleData), w))
      else (Inl (NoCacheAvailable grp), w))"

text \<open>
  \<open>getConstellationTLEs\<close>. A thrown \<open>Error\<close> is \<open>Inl\<close>. A name that \<open>groups\<close>
  inherits yields a function or an object, on which \<open>toUpperCase\<close> is not callable: the
  TypeError leaves the function before the \<open>try\<close>. A body that is not a non-blank string
  throws inside the \<open>try\<close>, as a failed request does.
\<close>

definition getConstellationTLEs ::
  "(string \<Rightarrow> net_result) \<Rightarrow> string \<Rightarrow> world \<Rightarrow> (error + tle list) \<times> world" where
  "getConstellationTLEs axios_get constellation w =
     (case js_get groups constellation of
        Undefined \<Rightarrow> (Inl (UnknownConstellation constellation), w)
      | Inherited \<Rightarrow> (Inl NotAFunction, w)
      | Own grp \<Rightarrow>
         (let cachePath = path_join CACHE_DIR (grp @ ''.tle'');
              url = catalog_url grp
          in if \<not> isStale w cachePath then
               (case readFileSync w cachePath of
                  Inl e \<Rightarrow> (Inl e, w)
                | Inr tleData \<Rightarrow> (Inr (parseTLEs tleData), w))
             else
               (let w1 = w\<lparr>requested := requested w @ [url]\<rparr> in
                case axios_get url of
                  NetError \<Rightarrow> fetch_failed grp cachePath w1
                | NetData d \<Rightarrow>
                    if d = [] \<or> js_trim d = [] then fetch_failed grp cachePath w1
                    else (Inr (parseTLEs d), writeFileSync w1 cachePath d))))"

definition error_message :: "error \<Rightarrow> string" where
  "error_message e =
     (case e of
        UnknownConstellation c \<Rightarrow> ''Unknown constellation: '' @ c
      | NotAFunction \<Rightarrow> ''group.toUpperCase is not a function''
      | NoCacheAvailable g \<Rightarrow> ''Failed to fetch '' @ g @ '' and no cache available''
      | ENOENT p \<Rightarrow> ''ENOENT: no such file or directory, open '' @ p)"

section \<open>The route handler: GET /api/:constellation/coverage\<close>

text \<open>
  A query value is a string; a parameter the query lacks takes its default, a Number.
\<close>

datatype jsval = JNumber jsnum | JString string

definition query_or :: "(string \<rightharpoonup> string) \<Rightarrow> string \<Rightarrow> jsnum \<Rightarrow> jsval" where
  "query_or q k d = (case q k of None \<Rightarrow> JNumber d | Some s \<Rightarrow> JString s)"

text \<open>
  satellite.js is not part of the repository. For one element set it is called in a fixed
  order (\<open>twoline2satrec\<close>, \<open>propagate\<close>, \<open>gstime\<close>, \<open>eciToGeodetic\<close>,
  \<open>degreesLat\<close>, \<open>degreesLong\<close>, \<open>degreesToRadians\<close>, \<open>eciToEcf\<close>,
  \<open>ecfToLookAngles\<close>, \<open>radiansToDegrees\<close>) before anything is pushed, so what the
  handler sees of it is one of three outcomes: some call throws (an \<open>Error\<close> object,
  whose \<open>message\<close> the \<open>catch\<close> block logs); \<open>propagate\<close> gives no position; or the
  values the handler reads.
\<close>

record geometry =
  geo_height :: jsnum
  geo_latitude_deg :: jsnum
  geo_longitude_deg :: jsnum
  look_elevation_deg :: jsnum
  look_rangeSat :: jsnum

datatype lib_outcome = Throws | NoPosition | Geometry geometry

text \<open>
  The path loss is rounded to an integer and compared with a threshold, so the rounding
  error of the three double-precision operations that compute it shows in the report.
  These operations are therefore not idealised: the handler takes \<open>Math.log10\<close>, \<open>+\<close>
  and \<open>*\<close> on Numbers from the machine it runs on (ECMAScript leaves the precision of
  \<open>Math.log10\<close> to the implementation).
\<close>

record machine =
  Math_log10 :: "jsnum \<Rightarrow> jsnum"
  float_add :: "jsnum \<Rightarrow> jsnum \<Rightarrow> jsnum"
  float_mul :: "jsnum \<Rightarrow> jsnum \<Rightarrow> jsnum"

text \<open>
  What the handler takes from outside: the network, satellite.js (given the observer's
  \<open>lat\<close>, \<open>lng\<close>, \<open>alt\<close>, the position of the element set in the list, which stands
  for the instant \<open>new Date()\<close> of that iteration, and the element set), and the
  conversions \<open>Number(string)\<close> and \<open>String(number)\<close>, and the machine arithmetic.
\<close>

record env =
  axios_get :: "string \<Rightarrow> net_result"
  satlib :: "jsval \<Rightarrow> jsval \<Rightarrow> jsval \<Rightarrow> nat \<Rightarrow> tle \<Rightarrow> lib_outcome"
  ToNumber :: "string \<Rightarrow> jsnum"
  NumberToString :: "jsnum \<Rightarrow> string"
  arith :: machine

record sat_state =
  sat_noradId :: jsnum
  lat :: jsnum
  lng :: jsnum
  altitudeKm :: jsnum
  elevation :: jsnum
  rangeKm :: "jsnum option"
  pathLossDb :: "jsnum option"
  coverageRadiusKm :: jsnum
  available :: bool

definition EARTH_RADIUS :: real where
  "EARTH_RADIUS = 6371"

definition MIN_ELEVATION_DEG :: real where
  "MIN_ELEVATION_DEG = 10"

definition elevRad :: real where
  "elevRad = MIN_ELEVATION_DEG * pi / 180"

definition freq_table :: "(string \<times> real) list" where
  "freq_table = [(''iridium'', 1.6), (''starlink'', 12.0), (''kuiper'', 12.0)]"

text \<open>\<open>{...}[constellation] || 1.6\<close>; an inherited property is truthy and not a
  Number: converted to a Number it is \<open>NaN\<close>.\<close>

definition freqGHz :: "string \<Rightarrow> jsnum" where
  "freqGHz constellation =
     (case js_get freq_table constellation of
        Own f \<Rightarrow> Fin f
      | Inherited \<Rightarrow> NaN
      | Undefined \<Rightarrow> Fin 1.6)"

text \<open>
  The body of \<open>for (const sat of tleList)\<close> on the accumulator \<open>results\<close>: the
  \<open>catch\<close> and the \<open>continue\<close> leave it as it is, the two \<open>push\<close> calls append.
\<close>

definition coverage_step ::
  "machine \<Rightarrow> lib_outcome \<Rightarrow> string \<Rightarrow> tle \<Rightarrow> sat_state list \<Rightarrow> sat_state list" where
  "coverage_step M outcome constellation sat results =
     (case outcome of
        Throws \<Rightarrow> results
      | NoPosition \<Rightarrow> results
      | Geometry geo \<Rightarrow>
         (let h = geo_height geo;
              centralAngle =
                js_sub (js_acos (js_div (Fin (EARTH_RADIUS * cos elevRad))
                                        (js_add (Fin EARTH_RADIUS) h)))
                       (Fin elevRad);
              radiusKm = js_mul (Fin EARTH_RADIUS) centralAngle;
              elev = look_elevation_deg geo;
              range = look_rangeSat geo
          in if js_isFinite range \<and> js_gt range (Fin 0) then
               (let lossDb =
                      float_add M
                        (float_add M (Fin 32.44) (float_mul M (Fin 20) (Math_log10 M range)))
                        (float_mul M (Fin 20) (Math_log10 M (freqGHz constellation)))
                in results @
                   [\<lparr>sat_noradId = noradId sat,
                     lat = geo_latitude_deg geo,
                     lng = geo_longitude_deg geo,
                     altitudeKm = geo_height geo,
                     elevation = js_toFixed1 elev,
                     rangeKm = Some (js_round range),
                     pathLossDb = Some (js_round lossDb),
                     coverageRadiusKm = radiusKm,
                     available = (js_gt elev (Fin 10) \<and> js_lt lossDb (Fin 160))\<rparr>])
             else
               results @
               [\<lparr>sat_noradId = noradId sat,
                 lat = geo_latitude_deg geo,
                 lng = geo_longitude_deg geo,
                 altitudeKm = geo_height geo,
                 elevation = js_toFixed1 elev,
                 rangeKm = None,
                 pathLossDb = None,
                 coverageRadiusKm = radiusKm,
                 available = False\<rparr>]))"

fun coverage_loop ::
  "machine \<Rightarrow> (nat \<Rightarrow> tle \<Rightarrow> lib_outcome) \<Rightarrow> string \<Rightarrow> nat \<Rightarrow> tle list \<Rightarrow>
   sat_state list \<Rightarrow> sat_state list" where
  "coverage_loop M lib constellation i [] results = results"
| "coverage_loop M lib constellation i (sat # rest) results =
     coverage_loop M lib constellation (Suc i) rest
       (coverage_step M (lib i sat) constellation sat results)"

record observer_echo =
  observer_lat :: jsnum
  observer_lng :: jsnum
  observer_alt :: string

record coverage_report =
  observer :: observer_echo
  constellation_id :: string
  satellites :: "sat_state list"

datatype response = Json200 coverage_report | Json500 string

record request =
  params_constellation :: string
  query :: "string \<rightharpoonup> string"

definition js_Number :: "env \<Rightarrow> jsval \<Rightarrow> jsnum" where
  "js_Number E v = (case v of JNumber n \<Rightarrow> n | JString s \<Rightarrow> ToNumber E s)"

definition js_String :: "env \<Rightarrow> jsval \<Rightarrow> string" where
  "js_String E v = (case v of JNumber n \<Rightarrow> NumberToString E n | JString s \<Rightarrow> s)"

definition coverage_handler :: "env \<Rightarrow> request \<Rightarrow> world \<Rightarrow> response \<times> world" where
  "coverage_handler E req w =
     (let qlat = query_or (query req) ''lat'' (Fin 45.42);
          qlng = query_or (query req) ''lng'' (Fin (- 75.7));
          qalt = query_or (query req) ''alt'' (Fin 100);
          constellation = params_constellation req
      in case getConstellationTLEs (axios_get E) constellation w of
           (Inl err, w') \<Rightarrow> (Json500 (error_message err), w')
         | (Inr tleList, w') \<Rightarrow>
             (let results =
                    coverage_loop (arith E) (satlib E qlat qlng qalt) constellation 0 tleList []
              in (Json200 \<lparr>observer = \<lparr>observer_lat = js_Number E qlat,
                                        observer_lng = js_Number E qlng,
                                        observer_alt = js_String E qalt @ ''m''\<rparr>,
                           constellation_id = constellation,
                           satellites = results\<rparr>, w')))"

section \<open>Reference definitions for the parser\<close>

text \<open>
  What the specification says of the parser, to compare the loop with: the lines grouped
  into consecutive triplets (name, line1, line2), the test a triplet must pass, and the
  record made of an accepted triplet.
\<close>

fun triplets :: "string list \<Rightarrow> (string \<times> string \<times> string) list" where
  "triplets (n # a # b # rest) = (n, a, b) # triplets rest"
| "triplets _ = []"

definition accepted :: "string \<times> string \<times> string \<Rightarrow> bool" where
  "accepted t = (case t of (n, a, b) \<Rightarrow> startsWith a ''1 '' \<and> startsWith b ''2 '')"

definition tle_of :: "string \<times> string \<times> string \<Rightarrow> tle" where
  "tle_of t = (case t of (n, a, b) \<Rightarrow>
     \<lparr>noradId = js_parseInt (js_substring a 2 7), line1 = a, line2 = b\<rparr>)"

definition accepted_records :: "string list \<Rightarrow> tle list" where
  "accepted_records lines = map tle_of (filter accepted (triplets lines))"

text \<open>The two element lines of a triplet, without its name.\<close>

definition element_lines :: "string \<times> string \<times> string \<Rightarrow> string \<times> string" where
  "element_lines t = (case t of (n, a, b) \<Rightarrow> (a, b))"

text \<open>The names \<open>lines[i].trim()\<close> of the triplets that the parser keeps.\<close>

definition triplet_names :: "string \<Rightarrow> string list" where
  "triplet_names tleText =
     map (\<lambda>t. case t of (n, a, b) \<Rightarrow> js_trim n)
       (take 30 (filter accepted (triplets (js_split_nl (js_trim tleText)))))"

text \<open>A catalog number written in decimal digits, and its value.\<close>

definition is_decimal_digit :: "char \<Rightarrow> bool" where
  "is_decimal_digit c = (48 \<le> (of_char c :: nat) \<and> (of_char c :: nat) \<le> 57)"

definition decimal_value :: "string \<Rightarrow> nat" where
  "decimal_value ds = foldl (\<lambda>acc c. 10 * acc + (of_char c - 48)) 0 ds"

section \<open>Example inputs\<close>

text \<open>\<open>lines.join('\n')\<close>, to write a catalog down line by line.\<close>

fun js_join_nl :: "string list \<Rightarrow> string" where
  "js_join_nl [] = []"
| "js_join_nl [l] = l"
| "js_join_nl (l # ls) = l @ CHR 0x0A # js_join_nl ls"

definition iss_line1 :: string where
  "iss_line1 = ''1 25544U 98067A   24001.50000000  .00016717  00000-0  10270-3 0  9005''"

definition iss_line2 :: string where
  "iss_line2 = ''2 25544  51.6400 208.9163 0006317  69.9862  25.2906 15.50000000    10''"

definition hst_line1 :: string where
  "hst_line1 = ''1 20580U 90037B   24001.50000000  .00001234  00000-0  56789-4 0  9991''"

definition hst_line2 :: string where
  "hst_line2 = ''2 20580  28.4700 120.0000 0002500  90.0000 270.0000 15.10000000    17''"

text \<open>One satellite; the same element lines under another name; and a catalog whose
  second triplet has lost the line number of its first element line.\<close>

definition catalog_iss :: string where
  "catalog_iss = js_join_nl [''ISS (ZARYA)'', iss_line1, iss_line2]"

definition catalog_renamed :: string where
  "catalog_renamed = js_join_nl [''SPACE STATION'', iss_line1, iss_line2]"

definition catalog_mixed :: string where
  "catalog_mixed =
     js_join_nl [''ISS (ZARYA)'', iss_line1, iss_line2,
                 ''DEBRIS'', ''25545U 98067B'', iss_line2,
                 ''HST'', hst_line1, hst_line2]"

text \<open>Thirty-one well-formed triplets, one more than the parser keeps.\<close>

definition catalog_31 :: string where
  "catalog_31 = js_join_nl (concat (replicate 31 [''SAT'', ''1 00001U'', ''2 00001'']))"

text \<open>
  Worlds for the cache: the iridium file written at time 1000 and read one hour or three
  hours later, and a cache directory with no file. Networks: down, answering with a blank
  body, and answering with a catalog.
\<close>

definition iridium_path :: string where
  "iridium_path = path_join CACHE_DIR ''iridium.tle''"

definition fresh_world :: world where
  "fresh_world =
     \<lparr>files = [iridium_path \<mapsto> \<lparr>file_text = catalog_iss, mtimeMs = 1000\<rparr>],
      clock = 1000 + 60 * 60 * 1000, requested = []\<rparr>"

definition stale_world :: world where
  "stale_world =
     \<lparr>files = [iridium_path \<mapsto> \<lparr>file_text = catalog_iss, mtimeMs = 1000\<rparr>],
      clock = 1000 + 3 * 60 * 60 * 1000, requested = []\<rparr>"

definition empty_world :: world where
  "empty_world = \<lparr>files = Map.empty, clock = 0, requested = []\<rparr>"

definition net_down :: "string \<Rightarrow> net_result" where
  "net_down url = NetError"

definition net_blank :: "string \<Rightarrow> net_result" where
  "net_blank url = NetData ''  ''"

definition net_up :: "string \<Rightarrow> net_result" where
  "net_up url = NetData catalog_mixed"



definition far_geometry :: geometry where
  "far_geometry =
     \<lparr>geo_height = Fin 780, geo_latitude_deg = Fin 10, geo_longitude_deg = Fin 20,
      look_elevation_deg = Fin (- 21), look_rangeSat = Fin 6250\<rparr>"

definition always_far :: "nat \<Rightarrow> tle \<Rightarrow> lib_outcome" where
  "always_far i sat = Geometry far_geometry"

text \<open>
  A machine arithmetic: IEEE 754 double precision with a correctly rounded logarithm,
  tabulated on the operands that occur for an iridium satellite at a slant range of
  6250 km (\<open>Fin 32.44\<close> and \<open>Fin 1.6\<close> stand for the doubles of these literals); the
  last sum is the double 112.44000000000001. Other operands get the exact result.
\<close>

definition doubles_at_6250 :: machine where
  "doubles_at_6250 =
     \<lparr>Math_log10 = (\<lambda>x.
        if x = Fin 6250 then Fin (8547561915826945 / 2251799813685248)
        else if x = Fin 1.6 then Fin (919274677828095 / 4503599627370496)
        else js_log10 x),
      float_add = (\<lambda>x y.
        if x = Fin 32.44 \<and> y = Fin (5342226197391841 / 70368744177664)
        then Fin (7624988258515261 / 70368744177664)
        else if x = Fin (7624988258515261 / 70368744177664) \<and> y = Fin (4596373389140475 / 1125899906842624)
        then Fin (7912261595336541 / 70368744177664)
        else js_add x y),
      float_mul = (\<lambda>x y.
        if x = Fin 20 \<and> y = Fin (8547561915826945 / 2251799813685248)
        then Fin (5342226197391841 / 70368744177664)
        else if x = Fin 20 \<and> y = Fin (919274677828095 / 4503599627370496)
        then Fin (4596373389140475 / 1125899906842624)
        else js_mul x y)\<rparr>"

text \<open>
  Two more stand-ins for satellite.js: one that finds no position for the first element
  set and puts every other one at the far geometry, and one whose every value is
  \<open>NaN\<close>, as when the element lines hold no numbers.
\<close>

definition first_has_no_position ::
  "jsval \<Rightarrow> jsval \<Rightarrow> jsval \<Rightarrow> nat \<Rightarrow> tle \<Rightarrow> lib_outcome" where
  "first_has_no_position qlat qlng qalt i sat =
     (if i = 0 then NoPosition else Geometry far_geometry)"

definition nan_geometry :: geometry where
  "nan_geometry =
     \<lparr>geo_height = NaN, geo_latitude_deg = NaN, geo_longitude_deg = NaN,
      look_elevation_deg = NaN, look_rangeSat = NaN\<rparr>"

definition always_nan :: "nat \<Rightarrow> tle \<Rightarrow> lib_outcome" where
  "always_nan i sat = Geometry nan_geometry"


definition omitting_env :: env where
  "omitting_env =
     \<lparr>axios_get = net_up, satlib = first_has_no_position,
      ToNumber = (\<lambda>s. NaN), NumberToString = (\<lambda>n. ''100''), arith = doubles_at_6250\<rparr>"

definition plain_request :: request where
  "plain_request = \<lparr>params_constellation = ''iridium'', query = Map.empty\<rparr>"

definition capped_request :: request where
  "capped_request =
     \<lparr>params_constellation = ''iridium'', query = [''maxSats'' \<mapsto> ''1'']\<rparr>"

definition iss_tle :: tle where
  "iss_tle = \<lparr>noradId = Fin 25544, line1 = iss_line1, line2 = iss_line2\<rparr>"

definition hst_tle :: tle where
  "hst_tle = \<lparr>noradId = Fin 20580, line1 = hst_line1, line2 = hst_line2\<rparr>"

definition far_env :: env where
  "far_env =
     \<lparr>axios_get = net_up, satlib = (\<lambda>qlat qlng qalt. always_far),
      ToNumber = (\<lambda>s. NaN), NumberToString = (\<lambda>n. ''100''), arith = doubles_at_6250\<rparr>"

section \<open>The loop of the parser against the reference definitions\<close>

lemma drop_three:
  assumes "i + 2 < length xs"
  shows "drop i xs = xs ! i # xs ! (i + 1) # xs ! (i + 2) # drop (i + 3) xs"
proof -
  have "drop i xs = xs ! i # drop (Suc i) xs"
    using assms by (simp add: Cons_nth_drop_Suc)
  moreover have "drop (Suc i) xs = xs ! (i + 1) # drop (Suc (Suc i)) xs"
    using assms by (simp add: Cons_nth_drop_Suc)
  moreover have "drop (Suc (Suc i)) xs = xs ! (i + 2) # drop (i + 3) xs"
    using assms by (simp add: Cons_nth_drop_Suc numeral_3_eq_3)
  ultimately show ?thesis by simp
qed

lemma triplets_short: "length xs < 3 \<Longrightarrow> triplets xs = []"
  by (cases xs rule: triplets.cases) auto

lemma parseTLEs_loop_eq:
  "parseTLEs_loop lines i sats = sats @ accepted_records (drop i lines)"
proof (induction lines i sats rule: parseTLEs_loop.induct)
  case (1 lines i sats)
  show ?case
  proof (cases "int i < int (length lines) - 1")
    case False
    then have "length (drop i lines) < 3" by simp
    then have "triplets (drop i lines) = []" by (rule triplets_short)
    with False show ?thesis
      by (subst parseTLEs_loop.simps) (simp add: accepted_records_def)
  next
    case True
    show ?thesis
    proof (cases "i + 2 < length lines")
      case False
      with True have len: "length lines = i + 2" by simp
      then have "length (drop i lines) < 3" and "drop (i + 3) lines = []" by simp_all
      then have t: "triplets (drop i lines) = []" "accepted_records (drop (i + 3) lines) = []"
        by (simp_all add: triplets_short accepted_records_def)
      have "parseTLEs_loop lines i sats = parseTLEs_loop lines (i + 3) sats"
        using True len by (subst parseTLEs_loop.simps) (simp add: js_index_def Let_def)
      also have "\<dots> = sats @ accepted_records (drop (i + 3) lines)"
        using "1.IH"[OF True refl refl refl] len by (simp add: js_index_def)
      finally show ?thesis using t by (simp add: accepted_records_def)
    next
      case lt: True
      let ?a = "lines ! (i + 1)" and ?b = "lines ! (i + 2)"
      let ?sats' = "if startsWith ?a ''1 '' \<and> startsWith ?b ''2 ''
                    then sats @ [\<lparr>noradId = js_parseInt (js_substring ?a 2 7), line1 = ?a, line2 = ?b\<rparr>]
                    else sats"
      have "parseTLEs_loop lines i sats = parseTLEs_loop lines (i + 3) ?sats'"
        using True lt by (subst parseTLEs_loop.simps) (simp add: js_index_def Let_def)
      also have "\<dots> = ?sats' @ accepted_records (drop (i + 3) lines)"
        using "1.IH"[OF True refl refl refl] lt by (auto simp: js_index_def split: if_splits)
      finally show ?thesis
        using drop_three[OF lt]
        by (simp add: accepted_records_def accepted_def tle_of_def)
    qed
  qed
qed

lemma parseTLEs_eq: "parseTLEs text = take 30 (accepted_records (js_split_nl (js_trim text)))"
  by (simp add: parseTLEs_def parseTLEs_loop_eq)

lemma triplets_append:
  "length pre mod 3 = 0 \<Longrightarrow> triplets (pre @ xs) = triplets pre @ triplets xs"
proof (induction pre rule: triplets.induct)
  case (1 n a b rest)
  then show ?case by (simp add: mod_Suc split: if_splits)
qed simp_all

lemma digit_of_decimal:
  "is_decimal_digit c \<Longrightarrow> digit_of 10 c = Some (of_char c - 48)"
  by (auto simp: is_decimal_digit_def digit_of_def Let_def)

lemma digits_value_decimal_acc:
  "\<forall>c\<in>set ds. is_decimal_digit c \<Longrightarrow>
   foldl (\<lambda>acc c. acc * 10 + (case digit_of 10 c of Some d \<Rightarrow> d | None \<Rightarrow> 0)) k ds =
   foldl (\<lambda>acc c. 10 * acc + (of_char c - 48)) k ds"
  by (induction ds arbitrary: k) (simp_all add: digit_of_decimal mult.commute)

lemma decimal_not_whitespace: "is_decimal_digit c \<Longrightarrow> \<not> js_whitespace c"
  by (auto simp: is_decimal_digit_def js_whitespace_def)

lemma decimal_not_sign: "is_decimal_digit c \<Longrightarrow> c \<noteq> CHR ''+'' \<and> c \<noteq> CHR ''-'' \<and> c \<noteq> CHR ''x'' \<and> c \<noteq> CHR ''X''"
  by (auto simp: is_decimal_digit_def)

lemma js_parseInt_decimal:
  assumes "ds \<noteq> []" and "\<forall>c\<in>set ds. is_decimal_digit c"
  shows "js_parseInt ds = Fin (real (decimal_value ds))"
proof -
  obtain c cs where ds: "ds = c # cs" using assms(1) by (cases ds) auto
  have c: "is_decimal_digit c" using assms(2) ds by simp
  have S: "dropWhile js_whitespace ds = ds"
    using c ds by (simp add: decimal_not_whitespace)
  have nohex: "\<not> startsWith ds ''0x''" "\<not> startsWith ds ''0X''"
  proof -
    show "\<not> startsWith ds ''0x''"
    proof (cases cs)
      case Nil then show ?thesis using ds by (simp add: startsWith_def)
    next
      case (Cons d rest)
      then have "is_decimal_digit d" using assms(2) ds by simp
      then show ?thesis using ds Cons decimal_not_sign[of d] by (auto simp: startsWith_def)
    qed
    show "\<not> startsWith ds ''0X''"
    proof (cases cs)
      case Nil then show ?thesis using ds by (simp add: startsWith_def)
    next
      case (Cons d rest)
      then have "is_decimal_digit d" using assms(2) ds by simp
      then show ?thesis using ds Cons decimal_not_sign[of d] by (auto simp: startsWith_def)
    qed
  qed
  have Z: "takeWhile (\<lambda>c. digit_of 10 c \<noteq> None) ds = ds"
    using assms(2) by (simp add: digit_of_decimal takeWhile_eq_all_conv)
  have v: "digits_value 10 ds = decimal_value ds"
    unfolding digits_value_def decimal_value_def
    using assms(2) by (rule digits_value_decimal_acc)
  have "js_parseInt (c # cs) = Fin (real (digits_value 10 (c # cs)))"
    using S nohex Z decimal_not_sign[OF c] unfolding ds js_parseInt_def
    by (simp add: Let_def)
  then show ?thesis using v ds by simp
qed

section \<open>The parser on the example catalogs\<close>

lemma split_catalog_iss:
  "js_split_nl (js_trim catalog_iss) = [''ISS (ZARYA)'', iss_line1, iss_line2]"
  by (simp add: catalog_iss_def iss_line1_def iss_line2_def js_split_nl_def js_trim_def
      js_whitespace_def)

lemma split_catalog_renamed:
  "js_split_nl (js_trim catalog_renamed) = [''SPACE STATION'', iss_line1, iss_line2]"
  by (simp add: catalog_renamed_def iss_line1_def iss_line2_def js_split_nl_def js_trim_def
      js_whitespace_def)

lemma split_catalog_mixed:
  "js_split_nl (js_trim catalog_mixed) =
     [''ISS (ZARYA)'', iss_line1, iss_line2, ''DEBRIS'', ''25545U 98067B'', iss_line2,
      ''HST'', hst_line1, hst_line2]"
  by (simp add: catalog_mixed_def iss_line1_def iss_line2_def hst_line1_def hst_line2_def
      js_split_nl_def js_trim_def js_whitespace_def)

lemma iss_columns: "js_substring iss_line1 2 7 = ''25544''"
  by (simp add: iss_line1_def js_substring_def)

lemma hst_columns: "js_substring hst_line1 2 7 = ''20580''"
  by (simp add: hst_line1_def js_substring_def)

lemma parseInt_25544: "js_parseInt ''25544'' = Fin 25544"
  by (simp add: js_parseInt_def js_whitespace_def startsWith_def digit_of_def
      digits_value_def Let_def)

lemma parseInt_20580: "js_parseInt ''20580'' = Fin 20580"
  by (simp add: js_parseInt_def js_whitespace_def startsWith_def digit_of_def
      digits_value_def Let_def)

lemma accepted_iss: "accepted (n, iss_line1, iss_line2)"
  by (simp add: accepted_def startsWith_def iss_line1_def iss_line2_def)

lemma accepted_hst: "accepted (n, hst_line1, hst_line2)"
  by (simp add: accepted_def startsWith_def hst_line1_def hst_line2_def)

lemma rejected_debris: "\<not> accepted (n, ''25545U 98067B'', iss_line2)"
  by (simp add: accepted_def startsWith_def)

lemma parseTLEs_catalog_iss:
  "parseTLEs catalog_iss = [\<lparr>noradId = Fin 25544, line1 = iss_line1, line2 = iss_line2\<rparr>]"
  by (simp add: parseTLEs_eq split_catalog_iss accepted_records_def accepted_iss tle_of_def
      iss_columns parseInt_25544)

lemma parseTLEs_catalog_renamed:
  "parseTLEs catalog_renamed = [\<lparr>noradId = Fin 25544, line1 = iss_line1, line2 = iss_line2\<rparr>]"
  by (simp add: parseTLEs_eq split_catalog_renamed accepted_records_def accepted_iss tle_of_def
      iss_columns parseInt_25544)

lemma parseTLEs_catalog_mixed:
  "parseTLEs catalog_mixed =
     [\<lparr>noradId = Fin 25544, line1 = iss_line1, line2 = iss_line2\<rparr>,
      \<lparr>noradId = Fin 20580, line1 = hst_line1, line2 = hst_line2\<rparr>]"
  by (simp add: parseTLEs_eq split_catalog_mixed accepted_records_def accepted_iss accepted_hst
      rejected_debris tle_of_def iss_columns hst_columns parseInt_25544 parseInt_20580)

section \<open>Properties of the parser\<close>

lemma tle_of_props:
  "accepted t \<Longrightarrow> startsWith (line1 (tle_of t)) ''1 '' \<and> startsWith (line2 (tle_of t)) ''2 '' \<and>
     noradId (tle_of t) = js_parseInt (js_substring (line1 (tle_of t)) 2 7)"
  by (cases t) (simp add: accepted_def tle_of_def)

lemma parseTLEs_set:
  "r \<in> set (parseTLEs text) \<Longrightarrow>
   \<exists>t \<in> set (triplets (js_split_nl (js_trim text))). accepted t \<and> r = tle_of t"
proof -
  assume "r \<in> set (parseTLEs text)"
  then have "r \<in> set (accepted_records (js_split_nl (js_trim text)))"
    unfolding parseTLEs_eq by (rule in_set_takeD)
  then show ?thesis by (auto simp: accepted_records_def)
qed

lemma accepted_records_skip:
  assumes "length pre mod 3 = 0" and "\<not> accepted (n, a, b)"
  shows "accepted_records (pre @ n # a # b # post) = accepted_records (pre @ post)"
  using assms by (simp add: accepted_records_def triplets_append)

text \<open>
  C6. Whatever the text, every record that \<open>parseTLEs\<close> returns comes from a triplet
  whose second line starts with "1 " and whose third line starts with "2 ", and its
  \<open>noradId\<close> is \<open>parseInt\<close> of columns 3 to 7 of \<open>line1\<close> (1-indexed), which is the
  decimal value when these columns hold decimal digits only. A triplet that lacks a
  prefix is skipped and the triplets after it are parsed as if it were not there.
\<close>

theorem parseTLEs_accepts_prefixed_triplets:
  "(\<forall>r \<in> set (parseTLEs text).
      startsWith (line1 r) ''1 '' \<and> startsWith (line2 r) ''2 '' \<and>
      noradId r = js_parseInt (js_substring (line1 r) 2 7) \<and>
      (js_substring (line1 r) 2 7 \<noteq> [] \<and>
       (\<forall>c \<in> set (js_substring (line1 r) 2 7). is_decimal_digit c) \<longrightarrow>
       noradId r = Fin (real (decimal_value (js_substring (line1 r) 2 7))))) \<and>
   (length pre mod 3 = 0 \<and> \<not> (startsWith a ''1 '' \<and> startsWith b ''2 '') \<longrightarrow>
      parseTLEs_loop (pre @ n # a # b # post) 0 [] = parseTLEs_loop (pre @ post) 0 [])"
proof (intro conjI ballI impI)
  fix r assume r: "r \<in> set (parseTLEs text)"
  then obtain t where t: "accepted t" "r = tle_of t"
    using parseTLEs_set by blast
  show "startsWith (line1 r) ''1 ''" "startsWith (line2 r) ''2 ''"
    "noradId r = js_parseInt (js_substring (line1 r) 2 7)"
    using tle_of_props[OF t(1)] t(2) by simp_all
  then show "noradId r = Fin (real (decimal_value (js_substring (line1 r) 2 7)))"
    if "js_substring (line1 r) 2 7 \<noteq> [] \<and>
        (\<forall>c \<in> set (js_substring (line1 r) 2 7). is_decimal_digit c)"
    using that js_parseInt_decimal by simp
next
  assume "length pre mod 3 = 0 \<and> \<not> (startsWith a ''1 '' \<and> startsWith b ''2 '')"
  then have "length pre mod 3 = 0" "\<not> accepted (n, a, b)"
    by (simp_all add: accepted_def)
  then show "parseTLEs_loop (pre @ n # a # b # post) 0 [] = parseTLEs_loop (pre @ post) 0 []"
    by (simp add: parseTLEs_loop_eq accepted_records_skip)
qed

theorem parseTLEs_accepts_prefixed_triplets_witness:
  "parseTLEs catalog_mixed =
     [\<lparr>noradId = Fin 25544, line1 = iss_line1, line2 = iss_line2\<rparr>,
      \<lparr>noradId = Fin 20580, line1 = hst_line1, line2 = hst_line2\<rparr>] \<and>
   startsWith iss_line1 ''1 '' \<and> startsWith hst_line2 ''2 '' \<and>
   js_parseInt (js_substring hst_line1 2 7) = Fin (real (decimal_value ''20580'')) \<and>
   parseTLEs_loop [''ISS (ZARYA)'', iss_line1, iss_line2, ''DEBRIS'', ''25545U 98067B'',
                   iss_line2, ''HST'', hst_line1, hst_line2] 0 [] =
   parseTLEs_loop [''ISS (ZARYA)'', iss_line1, iss_line2, ''HST'', hst_line1, hst_line2] 0 []"
proof -
  let ?hst = "\<lparr>noradId = Fin 20580, line1 = hst_line1, line2 = hst_line2\<rparr>"
  note inst = parseTLEs_accepts_prefixed_triplets
    [of catalog_mixed "[''ISS (ZARYA)'', iss_line1, iss_line2]" "''25545U 98067B''" iss_line2
        "''DEBRIS''" "[''HST'', hst_line1, hst_line2]"]
  have mem: "?hst \<in> set (parseTLEs catalog_mixed)"
    by (simp add: parseTLEs_catalog_mixed)
  have digits: "js_substring (line1 ?hst) 2 7 \<noteq> [] \<and>
      (\<forall>c \<in> set (js_substring (line1 ?hst) 2 7). is_decimal_digit c)"
    by (simp add: hst_columns is_decimal_digit_def)
  have skip: "length [''ISS (ZARYA)'', iss_line1, iss_line2] mod 3 = 0 \<and>
      \<not> (startsWith ''25545U 98067B'' ''1 '' \<and> startsWith iss_line2 ''2 '')"
    by (simp add: startsWith_def)
  from inst mem digits skip show ?thesis
    by (simp add: parseTLEs_catalog_mixed hst_columns accepted_iss[unfolded accepted_def, simplified]
        accepted_hst[unfolded accepted_def, simplified])
qed

lemma accepted_31:
  "length (filter accepted (triplets (js_split_nl (js_trim catalog_31)))) = 31"
  unfolding catalog_31_def by code_simp

lemma element_lines_tle_of: "(\<lambda>r. (line1 r, line2 r)) \<circ> tle_of = element_lines"
  by (auto simp: tle_of_def element_lines_def fun_eq_iff)

text \<open>
  C7. Whatever the text, \<open>parseTLEs\<close> returns at most 30 records: the first 30 of the
  records of the accepted triplets, in the order of the catalog (the element lines of
  the result are a subsequence of the element lines of the triplets).
\<close>

theorem parseTLEs_capped_in_catalog_order:
  "length (parseTLEs text) \<le> 30 \<and>
   parseTLEs text =
     take 30 (map tle_of (filter accepted (triplets (js_split_nl (js_trim text))))) \<and>
   subseq (map (\<lambda>r. (line1 r, line2 r)) (parseTLEs text))
          (map element_lines (triplets (js_split_nl (js_trim text))))"
proof (intro conjI)
  let ?ts = "triplets (js_split_nl (js_trim text))"
  show eq: "parseTLEs text = take 30 (map tle_of (filter accepted ?ts))"
    by (simp add: parseTLEs_eq accepted_records_def)
  then show "length (parseTLEs text) \<le> 30" by simp
  have "subseq (take 30 (map tle_of (filter accepted ?ts))) (map tle_of (filter accepted ?ts))"
    by (simp add: prefix_imp_subseq take_is_prefix)
  moreover have "subseq (map tle_of (filter accepted ?ts)) (map tle_of ?ts)"
    by (simp add: subseq_map)
  ultimately have "subseq (parseTLEs text) (map tle_of ?ts)"
    using eq by (metis subseq_order.trans)
  then have "subseq (map (\<lambda>r. (line1 r, line2 r)) (parseTLEs text))
               (map (\<lambda>r. (line1 r, line2 r)) (map tle_of ?ts))"
    by (rule subseq_map)
  then show "subseq (map (\<lambda>r. (line1 r, line2 r)) (parseTLEs text)) (map element_lines ?ts)"
    by (simp add: element_lines_tle_of)
qed

theorem parseTLEs_capped_in_catalog_order_witness:
  "length (filter accepted (triplets (js_split_nl (js_trim catalog_31)))) = 31 \<and>
   length (parseTLEs catalog_31) \<le> 30 \<and>
   parseTLEs catalog_mixed =
     [\<lparr>noradId = Fin 25544, line1 = iss_line1, line2 = iss_line2\<rparr>,
      \<lparr>noradId = Fin 20580, line1 = hst_line1, line2 = hst_line2\<rparr>] \<and>
   subseq [(iss_line1, iss_line2), (hst_line1, hst_line2)]
     [(iss_line1, iss_line2), (''25545U 98067B'', iss_line2), (hst_line1, hst_line2)]"
  using parseTLEs_capped_in_catalog_order [of catalog_31]
    parseTLEs_capped_in_catalog_order [of catalog_mixed] accepted_31
  by (simp add: parseTLEs_catalog_mixed split_catalog_mixed element_lines_def)

lemma accepted_element_lines:
  "accepted t = (startsWith (fst (element_lines t)) ''1 '' \<and> startsWith (snd (element_lines t)) ''2 '')"
  by (cases t) (simp add: accepted_def element_lines_def)

lemma tle_of_element_lines:
  "tle_of t = \<lparr>noradId = js_parseInt (js_substring (fst (element_lines t)) 2 7),
               line1 = fst (element_lines t), line2 = snd (element_lines t)\<rparr>"
  by (cases t) (simp add: tle_of_def element_lines_def)

lemma accepted_records_element_lines:
  "accepted_records lines =
     map (\<lambda>p. \<lparr>noradId = js_parseInt (js_substring (fst p) 2 7), line1 = fst p, line2 = snd p\<rparr>)
       (filter (\<lambda>p. startsWith (fst p) ''1 '' \<and> startsWith (snd p) ''2 '')
          (map element_lines (triplets lines)))"
  by (simp add: accepted_records_def filter_map comp_def accepted_element_lines[symmetric]
      tle_of_element_lines[symmetric])

text \<open>
  C9, as the code has it. A record of the parser has the three fields \<open>noradId\<close>,
  \<open>line1\<close> and \<open>line2\<close>, taken from the two element lines of a triplet; the name line
  is read and trimmed but is no part of the record, so two catalogs with the same element
  lines parse to the same records whatever their name lines.
\<close>

theorem parseTLEs_three_fields:
  "(map element_lines (triplets (js_split_nl (js_trim text))) =
    map element_lines (triplets (js_split_nl (js_trim text'))) \<longrightarrow>
      parseTLEs text = parseTLEs text') \<and>
   (\<forall>r \<in> set (parseTLEs text).
      \<exists>t \<in> set (triplets (js_split_nl (js_trim text))).
        r = \<lparr>noradId = js_parseInt (js_substring (fst (snd t)) 2 7),
              line1 = fst (snd t), line2 = snd (snd t)\<rparr>)"
proof (intro conjI impI ballI)
  assume "map element_lines (triplets (js_split_nl (js_trim text))) =
          map element_lines (triplets (js_split_nl (js_trim text')))"
  then show "parseTLEs text = parseTLEs text'"
    by (simp add: parseTLEs_eq accepted_records_element_lines)
next
  fix r assume "r \<in> set (parseTLEs text)"
  then obtain t where "t \<in> set (triplets (js_split_nl (js_trim text)))" "r = tle_of t"
    using parseTLEs_set by blast
  then show "\<exists>t \<in> set (triplets (js_split_nl (js_trim text))).
        r = \<lparr>noradId = js_parseInt (js_substring (fst (snd t)) 2 7),
              line1 = fst (snd t), line2 = snd (snd t)\<rparr>"
    by (auto simp: tle_of_def case_prod_beta intro!: bexI[of _ t])
qed

theorem parseTLEs_three_fields_witness:
  "parseTLEs catalog_iss = parseTLEs catalog_renamed \<and>
   (\<exists>t \<in> set [(''ISS (ZARYA)'', iss_line1, iss_line2)].
      \<lparr>noradId = Fin 25544, line1 = iss_line1, line2 = iss_line2\<rparr> =
      \<lparr>noradId = js_parseInt (js_substring (fst (snd t)) 2 7),
        line1 = fst (snd t), line2 = snd (snd t)\<rparr>)"
proof -
  note inst = parseTLEs_three_fields [of catalog_iss catalog_renamed]
  have same: "map element_lines (triplets (js_split_nl (js_trim catalog_iss))) =
      map element_lines (triplets (js_split_nl (js_trim catalog_renamed)))"
    by (simp add: split_catalog_iss split_catalog_renamed element_lines_def)
  have mem: "\<lparr>noradId = Fin 25544, line1 = iss_line1, line2 = iss_line2\<rparr>
      \<in> set (parseTLEs catalog_iss)"
    by (simp add: parseTLEs_catalog_iss)
  from inst same mem show ?thesis
    by (simp add: split_catalog_iss)
qed

text \<open>
  C9 as stated fails: two catalogs that differ in the name of the satellite only give
  the same records, so a record does not carry the name.
\<close>

theorem parseTLEs_drops_name_counterexample:
  "parseTLEs catalog_iss = parseTLEs catalog_renamed \<and>
   triplet_names catalog_iss \<noteq> triplet_names catalog_renamed"
proof -
  have "triplet_names catalog_iss = [js_trim ''ISS (ZARYA)'']"
    by (simp add: triplet_names_def split_catalog_iss accepted_iss)
  moreover have "triplet_names catalog_renamed = [js_trim ''SPACE STATION'']"
    by (simp add: triplet_names_def split_catalog_renamed accepted_iss)
  moreover have "js_trim ''ISS (ZARYA)'' \<noteq> js_trim ''SPACE STATION''"
    by (simp add: js_trim_def js_whitespace_def)
  ultimately show ?thesis
    by (simp add: parseTLEs_catalog_iss parseTLEs_catalog_renamed)
qed

section \<open>Properties of the cache\<close>

lemma known_group:
  "js_get groups constellation = Own grp \<Longrightarrow>
   grp = constellation \<and> constellation \<in> {''iridium'', ''starlink'', ''kuiper''}"
  by (auto simp: js_get_def groups_def split: if_splits option.splits)

lemma js_get_iridium: "js_get groups ''iridium'' = Own ''iridium''"
  by (simp add: js_get_def groups_def)

lemma getConstellationTLEs_fresh:
  assumes "js_get groups constellation = Own grp"
    and "files w (path_join CACHE_DIR (grp @ ''.tle'')) = Some f"
    and "\<not> clock w - mtimeMs f > MIN_REFRESH_MS"
  shows "getConstellationTLEs net constellation w = (Inr (parseTLEs (file_text f)), w)"
  using assms by (simp add: getConstellationTLEs_def isStale_def readFileSync_def Let_def)

lemma getConstellationTLEs_fetches:
  assumes "js_get groups constellation = Own grp"
    and "requested (snd (getConstellationTLEs net constellation w)) \<noteq> requested w"
  shows "isStale w (path_join CACHE_DIR (grp @ ''.tle''))"
  using assms
  by (auto simp: getConstellationTLEs_def readFileSync_def Let_def
      split: if_splits option.splits sum.splits)

text \<open>The age that equals the refresh interval still counts as fresh.\<close>

lemma isStale_boundary:
  "files w p = Some f \<Longrightarrow> clock w - mtimeMs f = MIN_REFRESH_MS \<Longrightarrow> \<not> isStale w p"
  by (simp add: isStale_def)

text \<open>
  C1. For each of the three groups: when the cache file of the group exists and its age
  (the clock minus its modification time) is less than 2 hours, \<open>getConstellationTLEs\<close>
  returns the parse of the file's text and leaves the world as it was, so no URL is
  requested, whatever the network would answer. When a URL is requested, the file is
  missing or its age is not less than 2 hours.
\<close>

theorem fresh_cache_no_network_call:
  assumes "js_get groups constellation = Own grp"
  shows "(\<forall>f. files w (path_join CACHE_DIR (grp @ ''.tle'')) = Some f \<and>
              clock w - mtimeMs f < 2 * 60 * 60 * 1000 \<longrightarrow>
            getConstellationTLEs net constellation w = (Inr (parseTLEs (file_text f)), w)) \<and>
         (requested (snd (getConstellationTLEs net constellation w)) \<noteq> requested w \<longrightarrow>
            files w (path_join CACHE_DIR (grp @ ''.tle'')) = None \<or>
            (\<exists>f. files w (path_join CACHE_DIR (grp @ ''.tle'')) = Some f \<and>
                 \<not> clock w - mtimeMs f < 2 * 60 * 60 * 1000))"
proof (intro conjI allI impI)
  fix f
  assume "files w (path_join CACHE_DIR (grp @ ''.tle'')) = Some f \<and>
          clock w - mtimeMs f < 2 * 60 * 60 * 1000"
  then show "getConstellationTLEs net constellation w = (Inr (parseTLEs (file_text f)), w)"
    using getConstellationTLEs_fresh[OF assms, of w f net] by (simp add: MIN_REFRESH_MS_def)
next
  assume "requested (snd (getConstellationTLEs net constellation w)) \<noteq> requested w"
  then have "isStale w (path_join CACHE_DIR (grp @ ''.tle''))"
    using getConstellationTLEs_fetches[OF assms] by simp
  then show "files w (path_join CACHE_DIR (grp @ ''.tle'')) = None \<or>
            (\<exists>f. files w (path_join CACHE_DIR (grp @ ''.tle'')) = Some f \<and>
                 \<not> clock w - mtimeMs f < 2 * 60 * 60 * 1000)"
    by (auto simp: isStale_def MIN_REFRESH_MS_def Let_def split: option.splits)
qed

lemma stale_world_fetches:
  "getConstellationTLEs net_up ''iridium'' stale_world =
     (Inr (parseTLEs catalog_mixed),
      \<lparr>files = [iridium_path \<mapsto> \<lparr>file_text = catalog_mixed, mtimeMs = 1000 + 3 * 60 * 60 * 1000\<rparr>],
       clock = 1000 + 3 * 60 * 60 * 1000,
       requested = [''https://celestrak.org/NORAD/elements/gp.php?GROUP=IRIDIUM&FORMAT=TLE'']\<rparr>)"
proof -
  have "js_trim catalog_mixed \<noteq> []"
  proof
    assume "js_trim catalog_mixed = []"
    with split_catalog_mixed show False by (simp add: js_split_nl_def)
  qed
  moreover have "catalog_mixed \<noteq> []"
    by (simp add: catalog_mixed_def)
  ultimately have blank: "catalog_mixed \<noteq> [] \<and> js_trim catalog_mixed \<noteq> []"
    by simp
  have url: "catalog_url ''iridium'' = ''https://celestrak.org/NORAD/elements/gp.php?GROUP=IRIDIUM&FORMAT=TLE''"
    by code_simp
  show ?thesis
    using blank
    by (simp add: getConstellationTLEs_def js_get_iridium isStale_def stale_world_def
        iridium_path_def MIN_REFRESH_MS_def Let_def net_up_def writeFileSync_def url)
qed

theorem fresh_cache_no_network_call_witness:
  "getConstellationTLEs net_up ''iridium'' fresh_world = (Inr (parseTLEs catalog_iss), fresh_world) \<and>
   requested (snd (getConstellationTLEs net_up ''iridium'' stale_world)) \<noteq> requested stale_world \<and>
   (\<exists>f. files stale_world (path_join CACHE_DIR ''iridium.tle'') = Some f \<and>
        \<not> clock stale_world - mtimeMs f < 2 * 60 * 60 * 1000)"
proof -
  note inst = fresh_cache_no_network_call [OF js_get_iridium]
  have fresh: "files fresh_world (path_join CACHE_DIR (''iridium'' @ ''.tle'')) =
      Some \<lparr>file_text = catalog_iss, mtimeMs = 1000\<rparr> \<and>
      clock fresh_world - mtimeMs \<lparr>file_text = catalog_iss, mtimeMs = 1000\<rparr> < 2 * 60 * 60 * 1000"
    by (simp add: fresh_world_def iridium_path_def)
  have stale: "requested (snd (getConstellationTLEs net_up ''iridium'' stale_world)) \<noteq>
      requested stale_world"
    by (simp add: stale_world_fetches) (simp add: stale_world_def)
  have there: "files stale_world (path_join CACHE_DIR ''iridium.tle'') =
      Some \<lparr>file_text = catalog_iss, mtimeMs = 1000\<rparr>"
    by (simp add: stale_world_def iridium_path_def)
  from inst[of fresh_world net_up] inst[of stale_world net_up] fresh stale there
  show ?thesis by simp
qed

lemma fetch_failed_result:
  "fetch_failed grp p w =
     ((case files w p of None \<Rightarrow> Inl (NoCacheAvailable grp)
       | Some f \<Rightarrow> Inr (parseTLEs (file_text f))), w)"
  by (simp add: fetch_failed_def readFileSync_def split: option.splits)

lemma getConstellationTLEs_failed:
  assumes "js_get groups constellation = Own grp"
    and "net (catalog_url grp) = NetError \<or>
         (\<exists>d. net (catalog_url grp) = NetData d \<and> (d = [] \<or> js_trim d = []))"
  shows "fst (getConstellationTLEs net constellation w) =
           (case files w (path_join CACHE_DIR (grp @ ''.tle'')) of
              None \<Rightarrow> Inl (NoCacheAvailable grp)
            | Some f \<Rightarrow> Inr (parseTLEs (file_text f))) \<and>
         files (snd (getConstellationTLEs net constellation w)) = files w \<and>
         clock (snd (getConstellationTLEs net constellation w)) = clock w"
  using assms
  by (auto simp: getConstellationTLEs_def fetch_failed_result isStale_def readFileSync_def Let_def
      split: option.splits)

text \<open>
  C2. For each of the three groups, when the request fails or the body is empty or
  blank: if the cache file exists, \<open>getConstellationTLEs\<close> returns the parse of its text
  and the files (texts and modification times) are what they were; if it does not exist,
  the call fails with the error "no cache available", and the route answers with that
  error and no satellites.
\<close>

theorem failed_fetch_falls_back_to_cache:
  assumes "js_get groups constellation = Own grp"
    and "net (catalog_url grp) = NetError \<or>
         (\<exists>d. net (catalog_url grp) = NetData d \<and> (d = [] \<or> js_trim d = []))"
  shows "(\<forall>f. files w (path_join CACHE_DIR (grp @ ''.tle'')) = Some f \<longrightarrow>
            fst (getConstellationTLEs net constellation w) = Inr (parseTLEs (file_text f)) \<and>
            files (snd (getConstellationTLEs net constellation w)) = files w) \<and>
         (files w (path_join CACHE_DIR (grp @ ''.tle'')) = None \<longrightarrow>
            fst (getConstellationTLEs net constellation w) = Inl (NoCacheAvailable grp) \<and>
            files (snd (getConstellationTLEs net constellation w)) = files w \<and>
            fst (coverage_handler
                   \<lparr>axios_get = net, satlib = lib, ToNumber = tn, NumberToString = ts,
                    arith = ar\<rparr>
                   \<lparr>params_constellation = constellation, query = q\<rparr> w) =
              Json500 (''Failed to fetch '' @ grp @ '' and no cache available''))"
proof (intro conjI allI impI)
  note failed = getConstellationTLEs_failed[of constellation grp net w, OF assms]
  {
    fix f assume "files w (path_join CACHE_DIR (grp @ ''.tle'')) = Some f"
    with failed
    show "fst (getConstellationTLEs net constellation w) = Inr (parseTLEs (file_text f))"
      and "files (snd (getConstellationTLEs net constellation w)) = files w"
      by simp_all
  }
  assume none: "files w (path_join CACHE_DIR (grp @ ''.tle'')) = None"
  with failed
  show err: "fst (getConstellationTLEs net constellation w) = Inl (NoCacheAvailable grp)"
    and "files (snd (getConstellationTLEs net constellation w)) = files w"
    by simp_all
  then show "fst (coverage_handler
                   \<lparr>axios_get = net, satlib = lib, ToNumber = tn, NumberToString = ts,
                    arith = ar\<rparr>
                   \<lparr>params_constellation = constellation, query = q\<rparr> w) =
              Json500 (''Failed to fetch '' @ grp @ '' and no cache available'')"
    by (cases "getConstellationTLEs net constellation w")
       (simp add: coverage_handler_def Let_def error_message_def)
qed

theorem failed_fetch_falls_back_to_cache_witness:
  "fst (getConstellationTLEs net_down ''iridium'' stale_world) = Inr (parseTLEs catalog_iss) \<and>
   files (snd (getConstellationTLEs net_down ''iridium'' stale_world)) = files stale_world \<and>
   fst (getConstellationTLEs net_blank ''iridium'' empty_world) =
     Inl (NoCacheAvailable ''iridium'') \<and>
   fst (coverage_handler
          \<lparr>axios_get = net_blank, satlib = (\<lambda>lat lng alt i sat. Throws),
           ToNumber = (\<lambda>s. NaN), NumberToString = (\<lambda>n. []), arith = doubles_at_6250\<rparr>
          \<lparr>params_constellation = ''iridium'', query = Map.empty\<rparr> empty_world) =
     Json500 ''Failed to fetch iridium and no cache available''"
proof -
  have down: "net_down (catalog_url ''iridium'') = NetError \<or>
      (\<exists>d. net_down (catalog_url ''iridium'') = NetData d \<and> (d = [] \<or> js_trim d = []))"
    by (simp add: net_down_def)
  have blank: "net_blank (catalog_url ''iridium'') = NetError \<or>
      (\<exists>d. net_blank (catalog_url ''iridium'') = NetData d \<and> (d = [] \<or> js_trim d = []))"
    by (simp add: net_blank_def js_trim_def js_whitespace_def)
  have there: "files stale_world (path_join CACHE_DIR (''iridium'' @ ''.tle'')) =
      Some \<lparr>file_text = catalog_iss, mtimeMs = 1000\<rparr>"
    by (simp add: stale_world_def iridium_path_def)
  have none: "files empty_world (path_join CACHE_DIR (''iridium'' @ ''.tle'')) = None"
    by (simp add: empty_world_def)
  from failed_fetch_falls_back_to_cache
      [of "''iridium''" "''iridium''" net_down stale_world, OF js_get_iridium down]
    failed_fetch_falls_back_to_cache
      [of "''iridium''" "''iridium''" net_blank empty_world
          "\<lambda>lat lng alt i sat. Throws" "\<lambda>s. NaN" "\<lambda>n. []" doubles_at_6250 Map.empty,
       OF js_get_iridium blank]
    there none
  show ?thesis by simp
qed

section \<open>Properties of the route handler\<close>

lemma coverage_step_append:
  "coverage_step M outcome c sat results = results @ coverage_step M outcome c sat []"
  by (simp add: coverage_step_def Let_def split: lib_outcome.splits)

lemma coverage_loop_append:
  "coverage_loop M lib c i sats results = results @ coverage_loop M lib c i sats []"
proof (induction sats arbitrary: i results)
  case Nil
  show ?case by simp
next
  case (Cons sat rest)
  have "coverage_loop M lib c i (sat # rest) results =
        coverage_step M (lib i sat) c sat results @ coverage_loop M lib c (Suc i) rest []"
    using Cons.IH[of "Suc i" "coverage_step M (lib i sat) c sat results"] by simp
  also have "\<dots> = results @ coverage_step M (lib i sat) c sat [] @ coverage_loop M lib c (Suc i) rest []"
    using coverage_step_append[of M "lib i sat" c sat results] by simp
  also have "coverage_step M (lib i sat) c sat [] @ coverage_loop M lib c (Suc i) rest [] =
        coverage_loop M lib c i (sat # rest) []"
    using Cons.IH[of "Suc i" "coverage_step M (lib i sat) c sat []"] by simp
  finally show ?case .
qed

lemma coverage_loop_split:
  "coverage_loop M lib c i (pre @ sat # post) [] =
     coverage_loop M lib c i pre [] @ coverage_step M (lib (i + length pre) sat) c sat [] @
     coverage_loop M lib c (Suc (i + length pre)) post []"
proof (induction pre arbitrary: i)
  case Nil
  show ?case using coverage_loop_append[of M lib c "Suc i" post "coverage_step M (lib i sat) c sat []"]
    by simp
next
  case (Cons p pre)
  have "coverage_loop M lib c i ((p # pre) @ sat # post) [] =
        coverage_step M (lib i p) c p [] @ coverage_loop M lib c (Suc i) (pre @ sat # post) []"
    using coverage_loop_append[of M lib c "Suc i" "pre @ sat # post" "coverage_step M (lib i p) c p []"]
    by simp
  moreover have "coverage_loop M lib c i (p # pre) [] =
        coverage_step M (lib i p) c p [] @ coverage_loop M lib c (Suc i) pre []"
    using coverage_loop_append[of M lib c "Suc i" pre "coverage_step M (lib i p) c p []"]
    by simp
  ultimately show ?case using Cons.IH[of "Suc i"] by simp
qed

lemma coverage_handler_ok:
  assumes "getConstellationTLEs (axios_get E) (params_constellation req) w = (Inr tleList, w')"
  shows "coverage_handler E req w =
     (Json200 \<lparr>observer =
                \<lparr>observer_lat = js_Number E (query_or (query req) ''lat'' (Fin 45.42)),
                 observer_lng = js_Number E (query_or (query req) ''lng'' (Fin (- 75.7))),
                 observer_alt = js_String E (query_or (query req) ''alt'' (Fin 100)) @ ''m''\<rparr>,
               constellation_id = params_constellation req,
               satellites =
                 coverage_loop (arith E)
                   (satlib E (query_or (query req) ''lat'' (Fin 45.42))
                             (query_or (query req) ''lng'' (Fin (- 75.7)))
                             (query_or (query req) ''alt'' (Fin 100)))
                   (params_constellation req) 0 tleList []\<rparr>, w')"
  using assms by (simp add: coverage_handler_def Let_def)

lemma coverage_handler_cases:
  assumes "coverage_handler E req w = (Json200 rep, w')"
  obtains tleList where
    "getConstellationTLEs (axios_get E) (params_constellation req) w = (Inr tleList, w')"
    "satellites rep =
       coverage_loop (arith E)
         (satlib E (query_or (query req) ''lat'' (Fin 45.42))
                   (query_or (query req) ''lng'' (Fin (- 75.7)))
                   (query_or (query req) ''alt'' (Fin 100)))
         (params_constellation req) 0 tleList []"
proof (cases "getConstellationTLEs (axios_get E) (params_constellation req) w")
  case (Pair res w1)
  show ?thesis
  proof (cases res)
    case (Inl err)
    with Pair assms show ?thesis by (simp add: coverage_handler_def Let_def)
  next
    case (Inr tleList)
    with Pair assms coverage_handler_ok[of E req w tleList w1] that[of tleList]
    show ?thesis by auto
  qed
qed

lemma coverage_handler_report:
  assumes "getConstellationTLEs (axios_get E) (params_constellation req) w = (Inr tleList, w')"
  shows "\<exists>rep. coverage_handler E req w = (Json200 rep, w') \<and>
     satellites rep =
       coverage_loop (arith E)
         (satlib E (query_or (query req) ''lat'' (Fin 45.42))
                   (query_or (query req) ''lng'' (Fin (- 75.7)))
                   (query_or (query req) ''alt'' (Fin 100)))
         (params_constellation req) 0 tleList []"
  using coverage_handler_ok[OF assms] by simp

lemma example_tles: "parseTLEs catalog_mixed = [iss_tle, hst_tle]"
  by (simp add: parseTLEs_catalog_mixed iss_tle_def hst_tle_def)

lemma stale_world_tles:
  "getConstellationTLEs net_up ''iridium'' stale_world =
     (Inr [iss_tle, hst_tle], snd (getConstellationTLEs net_up ''iridium'' stale_world))"
  by (simp add: stale_world_fetches example_tles)



lemma far_loss_rounded: "\<lfloor>(112.44::real) + 1 / 2\<rfloor> = 112"
  by (rule floor_unique) simp_all

lemma freqGHz_known:
  "c \<in> {''iridium'', ''starlink'', ''kuiper''} \<Longrightarrow>
   freqGHz c = Fin (if c = ''iridium'' then 1.6 else 12)"
  by (auto simp: freqGHz_def js_get_def freq_table_def)

lemma coverage_step_ids:
  "map sat_noradId (coverage_step M outcome c sat []) =
     (if outcome \<noteq> Throws \<and> outcome \<noteq> NoPosition then [noradId sat] else [])"
  by (cases outcome) (simp_all add: coverage_step_def Let_def)

lemma coverage_loop_ids:
  "map sat_noradId (coverage_loop M lib c i sats []) =
     map (\<lambda>(k, sat). noradId sat)
       (filter (\<lambda>(k, sat). lib k sat \<noteq> Throws \<and> lib k sat \<noteq> NoPosition) (enumerate i sats))"
proof (induction sats arbitrary: i)
  case Nil
  show ?case by simp
next
  case (Cons sat rest)
  have "coverage_loop M lib c i (sat # rest) [] =
        coverage_step M (lib i sat) c sat [] @ coverage_loop M lib c (Suc i) rest []"
    using coverage_loop_append[of M lib c "Suc i" rest "coverage_step M (lib i sat) c sat []"]
    by simp
  then show ?case
    using Cons.IH[of "Suc i"] coverage_step_ids[of M "lib i sat" c sat] by simp
qed

lemma coverage_step_in_range:
  assumes "look_rangeSat g = Fin r" and "0 < r"
  shows "coverage_step M (Geometry g) c sat [] =
     [\<lparr>sat_noradId = noradId sat,
       lat = geo_latitude_deg g,
       lng = geo_longitude_deg g,
       altitudeKm = geo_height g,
       elevation = js_toFixed1 (look_elevation_deg g),
       rangeKm = Some (Fin (of_int \<lfloor>r + 1 / 2\<rfloor>)),
       pathLossDb =
         Some (js_round
           (float_add M (float_add M (Fin 32.44) (float_mul M (Fin 20) (Math_log10 M (Fin r))))
                        (float_mul M (Fin 20) (Math_log10 M (freqGHz c))))),
       coverageRadiusKm =
         js_mul (Fin 6371)
           (js_sub (js_acos (js_div (Fin (6371 * cos (10 * pi / 180)))
                                    (js_add (Fin 6371) (geo_height g))))
                   (Fin (10 * pi / 180))),
       available =
         (js_gt (look_elevation_deg g) (Fin 10) \<and>
          js_lt
            (float_add M (float_add M (Fin 32.44) (float_mul M (Fin 20) (Math_log10 M (Fin r))))
                         (float_mul M (Fin 20) (Math_log10 M (freqGHz c))))
            (Fin 160))\<rparr>]"
  using assms
  by (simp add: coverage_step_def Let_def js_isFinite_def EARTH_RADIUS_def elevRad_def
      MIN_ELEVATION_DEG_def)

text \<open>The far geometry on the tabulated machine: the loss is the double
  112.44000000000001, reported as 112.\<close>

lemma far_loss_double:
  "float_add doubles_at_6250
     (float_add doubles_at_6250 (Fin 32.44)
        (float_mul doubles_at_6250 (Fin 20) (Math_log10 doubles_at_6250 (Fin 6250))))
     (float_mul doubles_at_6250 (Fin 20) (Math_log10 doubles_at_6250 (Fin 1.6))) =
   Fin (7912261595336541 / 70368744177664)"
  by (simp add: doubles_at_6250_def)

lemma far_loss_double_rounded: "js_round (Fin (7912261595336541 / 70368744177664)) = Fin 112"
proof -
  have "\<lfloor>(7912261595336541 / 70368744177664 :: real) + 1 / 2\<rfloor> = 112"
    by (rule floor_unique) simp_all
  then show ?thesis by simp
qed

lemma far_entry:
  "coverage_step doubles_at_6250 (Geometry far_geometry) ''iridium'' sat [] =
     [\<lparr>sat_noradId = noradId sat,
       lat = Fin 10,
       lng = Fin 20,
       altitudeKm = Fin 780,
       elevation = Fin (- 21),
       rangeKm = Some (Fin 6250),
       pathLossDb = Some (Fin 112),
       coverageRadiusKm =
         js_mul (Fin 6371)
           (js_sub (js_acos (js_div (Fin (6371 * cos (10 * pi / 180)))
                                    (js_add (Fin 6371) (Fin 780))))
                   (Fin (10 * pi / 180))),
       available = False\<rparr>]"
proof -
  have freq: "freqGHz ''iridium'' = Fin 1.6"
    using freqGHz_known[of "''iridium''"] by simp
  have range: "look_rangeSat far_geometry = Fin 6250" "(0::real) < 6250"
    by (simp_all add: far_geometry_def)
  have r: "\<lfloor>(6250::real) + 1 / 2\<rfloor> = 6250"
    by (rule floor_unique) simp_all
  have elev: "js_toFixed1 (look_elevation_deg far_geometry) = Fin (- 21)"
  proof -
    have "\<lfloor>\<bar>- 21::real\<bar> * 10 + 1 / 2\<rfloor> = 210"
      by (rule floor_unique) simp_all
    then show ?thesis by (simp add: far_geometry_def)
  qed
  have below: "js_lt (Fin (7912261595336541 / 70368744177664)) (Fin 160)"
    by (simp add: js_lt_def)
  have up: "\<not> js_gt (look_elevation_deg far_geometry) (Fin 10)"
    by (simp add: far_geometry_def)
  have fields: "geo_latitude_deg far_geometry = Fin 10" "geo_longitude_deg far_geometry = Fin 20"
    "geo_height far_geometry = Fin 780"
    by (simp_all add: far_geometry_def)
  show ?thesis
    unfolding coverage_step_in_range[OF range, of doubles_at_6250 "''iridium''" sat] freq
      far_loss_double far_loss_double_rounded r elev fields
    using below up by simp
qed

text \<open>
  C4, as the code has it. When the element sets were obtained, the route answers 200 and
  its report has, in the order of the list, one entry for each element set on which
  satellite.js neither throws nor lacks a position, with the \<open>noradId\<close> of that set.
  An element set on which a call throws or \<open>propagate\<close> yields no position has no entry,
  and the entries of the sets before and after it are what they are without it. A
  numeric error that does not throw is no such failure: the element set has its entry.
\<close>

theorem failed_satellite_is_omitted:
  assumes "getConstellationTLEs (axios_get E) (params_constellation req) w = (Inr tleList, w')"
    and "lib = satlib E (query_or (query req) ''lat'' (Fin 45.42))
                        (query_or (query req) ''lng'' (Fin (- 75.7)))
                        (query_or (query req) ''alt'' (Fin 100))"
  shows "\<exists>rep. coverage_handler E req w = (Json200 rep, w') \<and>
           map sat_noradId (satellites rep) =
             map (\<lambda>(k, sat). noradId sat)
               (filter (\<lambda>(k, sat). lib k sat \<noteq> Throws \<and> lib k sat \<noteq> NoPosition)
                  (enumerate 0 tleList)) \<and>
           (\<forall>pre sat post.
              tleList = pre @ sat # post \<and>
              (lib (length pre) sat = Throws \<or> lib (length pre) sat = NoPosition) \<longrightarrow>
              satellites rep =
                coverage_loop (arith E) lib (params_constellation req) 0 pre [] @
                coverage_loop (arith E) lib (params_constellation req) (Suc (length pre)) post [])"
proof -
  let ?c = "params_constellation req"
  from coverage_handler_report[OF assms(1)] assms(2)
  obtain rep where rep: "coverage_handler E req w = (Json200 rep, w')"
    and sats: "satellites rep = coverage_loop (arith E) lib ?c 0 tleList []"
    by auto
  have ids: "map sat_noradId (satellites rep) =
             map (\<lambda>(k, sat). noradId sat)
               (filter (\<lambda>(k, sat). lib k sat \<noteq> Throws \<and> lib k sat \<noteq> NoPosition)
                  (enumerate 0 tleList))"
    unfolding sats by (rule coverage_loop_ids)
  have omit: "satellites rep =
                coverage_loop (arith E) lib ?c 0 pre [] @
                coverage_loop (arith E) lib ?c (Suc (length pre)) post []"
    if "tleList = pre @ sat # post \<and>
        (lib (length pre) sat = Throws \<or> lib (length pre) sat = NoPosition)"
    for pre sat post
  proof -
    from that have "coverage_step (arith E) (lib (length pre) sat) ?c sat [] = []"
      by (auto simp: coverage_step_def)
    then show ?thesis
      using coverage_loop_split[of "arith E" lib ?c 0 pre sat post] that sats by simp
  qed
  from rep ids omit show ?thesis by blast
qed

theorem failed_satellite_is_omitted_witness:
  "\<exists>rep. fst (coverage_handler omitting_env plain_request stale_world) = Json200 rep \<and>
     map sat_noradId (satellites rep) = [Fin 20580] \<and>
     satellites rep =
       [\<lparr>sat_noradId = Fin 20580,
         lat = Fin 10,
         lng = Fin 20,
         altitudeKm = Fin 780,
         elevation = Fin (- 21),
         rangeKm = Some (Fin 6250),
         pathLossDb = Some (Fin 112),
         coverageRadiusKm =
           js_mul (Fin 6371)
             (js_sub (js_acos (js_div (Fin (6371 * cos (10 * pi / 180)))
                                      (js_add (Fin 6371) (Fin 780))))
                     (Fin (10 * pi / 180))),
         available = False\<rparr>]"
proof -
  let ?w' = "snd (getConstellationTLEs net_up ''iridium'' stale_world)"
  let ?lib = "first_has_no_position (JNumber (Fin 45.42)) (JNumber (Fin (- 75.7)))
                (JNumber (Fin 100))"
  have tles: "getConstellationTLEs (axios_get omitting_env) (params_constellation plain_request)
                stale_world = (Inr [iss_tle, hst_tle], ?w')"
    using stale_world_tles by (simp add: omitting_env_def plain_request_def)
  have lib: "?lib = satlib omitting_env (query_or (query plain_request) ''lat'' (Fin 45.42))
                        (query_or (query plain_request) ''lng'' (Fin (- 75.7)))
                        (query_or (query plain_request) ''alt'' (Fin 100))"
    by (simp add: omitting_env_def plain_request_def query_or_def)
  from failed_satellite_is_omitted [OF tles lib]
  obtain rep where rep: "coverage_handler omitting_env plain_request stale_world = (Json200 rep, ?w')"
    and ids: "map sat_noradId (satellites rep) =
             map (\<lambda>(k, sat). noradId sat)
               (filter (\<lambda>(k, sat). ?lib k sat \<noteq> Throws \<and> ?lib k sat \<noteq> NoPosition)
                  (enumerate 0 [iss_tle, hst_tle]))"
    and omit: "\<forall>pre sat post.
              [iss_tle, hst_tle] = pre @ sat # post \<and>
              (?lib (length pre) sat = Throws \<or> ?lib (length pre) sat = NoPosition) \<longrightarrow>
              satellites rep =
                coverage_loop (arith omitting_env) ?lib (params_constellation plain_request) 0 pre [] @
                coverage_loop (arith omitting_env) ?lib (params_constellation plain_request)
                  (Suc (length pre)) post []"
    by blast
  have "[iss_tle, hst_tle] = [] @ iss_tle # [hst_tle] \<and>
        (?lib (length ([]::tle list)) iss_tle = Throws \<or>
         ?lib (length ([]::tle list)) iss_tle = NoPosition)"
    by (simp add: first_has_no_position_def)
  with omit have "satellites rep =
      coverage_loop (arith omitting_env) ?lib (params_constellation plain_request) 0 [] [] @
      coverage_loop (arith omitting_env) ?lib (params_constellation plain_request)
        (Suc (length ([]::tle list))) [hst_tle] []"
    by blast
  then have sats: "satellites rep =
      coverage_step doubles_at_6250 (Geometry far_geometry) ''iridium'' hst_tle []"
    by (simp add: omitting_env_def plain_request_def first_has_no_position_def)
  from ids have "map sat_noradId (satellites rep) = [Fin 20580]"
    by (simp add: first_has_no_position_def enumerate_eq_zip hst_tle_def upt_rec)
  with rep sats show ?thesis
    by (simp add: far_entry hst_tle_def)
qed

text \<open>
  C4 as stated fails for a numeric error: when every value that satellite.js returns
  is \<open>NaN\<close>, nothing is thrown, and the element set is reported with the values that
  could not be computed.
\<close>

theorem numeric_error_is_reported_counterexample:
  "coverage_loop doubles_at_6250 always_nan ''iridium'' 0 [iss_tle] [] =
     [\<lparr>sat_noradId = Fin 25544,
       lat = NaN,
       lng = NaN,
       altitudeKm = NaN,
       elevation = NaN,
       rangeKm = None,
       pathLossDb = None,
       coverageRadiusKm = NaN,
       available = False\<rparr>]"
  by (simp add: always_nan_def nan_geometry_def coverage_step_def Let_def js_isFinite_def
      js_sub_def iss_tle_def)














lemma coverage_step_length: "length (coverage_step M outcome c sat []) \<le> 1"
  by (simp add: coverage_step_def Let_def split: lib_outcome.splits)

lemma coverage_loop_length: "length (coverage_loop M lib c i sats []) \<le> length sats"
proof (induction sats arbitrary: i)
  case Nil
  show ?case by simp
next
  case (Cons sat rest)
  have "coverage_loop M lib c i (sat # rest) [] =
        coverage_step M (lib i sat) c sat [] @ coverage_loop M lib c (Suc i) rest []"
    using coverage_loop_append[of M lib c "Suc i" rest "coverage_step M (lib i sat) c sat []"]
    by simp
  then show ?case
    using Cons.IH[of "Suc i"] coverage_step_length[of M "lib i sat" c sat] by simp
qed

lemma fetch_failed_parsed:
  "fetch_failed grp p w = (Inr tleList, w') \<Longrightarrow> \<exists>text. tleList = parseTLEs text"
  by (auto simp: fetch_failed_result split: option.splits)

lemma getConstellationTLEs_parsed:
  assumes "getConstellationTLEs net constellation w = (Inr tleList, w')"
  shows "\<exists>text. tleList = parseTLEs text"
proof (cases "js_get groups constellation")
  case (Own grp)
  let ?p = "path_join CACHE_DIR (grp @ ''.tle'')"
  show ?thesis
  proof (cases "isStale w ?p")
    case False
    with Own assms show ?thesis
      by (auto simp: getConstellationTLEs_def readFileSync_def Let_def split: option.splits)
  next
    case True
    let ?w1 = "w\<lparr>requested := requested w @ [catalog_url grp]\<rparr>"
    show ?thesis
    proof (cases "net (catalog_url grp)")
      case NetError
      with Own True assms have "fetch_failed grp ?p ?w1 = (Inr tleList, w')"
        by (simp add: getConstellationTLEs_def Let_def)
      then show ?thesis by (rule fetch_failed_parsed)
    next
      case (NetData d)
      show ?thesis
      proof (cases "d = [] \<or> js_trim d = []")
        case True
        with NetData Own \<open>isStale w ?p\<close> assms
        have "fetch_failed grp ?p ?w1 = (Inr tleList, w')"
          by (simp add: getConstellationTLEs_def Let_def)
        then show ?thesis by (rule fetch_failed_parsed)
      next
        case False
        with NetData Own \<open>isStale w ?p\<close> assms
        have "tleList = parseTLEs d"
          by (simp add: getConstellationTLEs_def Let_def)
        then show ?thesis by blast
      qed
    qed
  qed
qed (use assms in \<open>simp_all add: getConstellationTLEs_def\<close>)

lemma parseTLEs_length: "length (parseTLEs text) \<le> 30"
  by (simp add: parseTLEs_def)

text \<open>
  C10. The answer of the route, and the world it leaves, do not depend on the query
  parameter \<open>maxSats\<close>: setting it to any value, or removing it, changes nothing. The
  only bound on the number of satellites is the 30 of the parser.
\<close>

theorem response_ignores_maxSats:
  "coverage_handler E (req\<lparr>query := (query req)(''maxSats'' := v)\<rparr>) w =
     coverage_handler E req w \<and>
   (\<forall>rep w'. coverage_handler E req w = (Json200 rep, w') \<longrightarrow>
      length (satellites rep) \<le> 30)"
proof (intro conjI allI impI)
  show "coverage_handler E (req\<lparr>query := (query req)(''maxSats'' := v)\<rparr>) w =
     coverage_handler E req w"
    by (simp add: coverage_handler_def query_or_def)
next
  fix rep w'
  assume "coverage_handler E req w = (Json200 rep, w')"
  then obtain tleList where
    tles: "getConstellationTLEs (axios_get E) (params_constellation req) w = (Inr tleList, w')"
    and sats: "satellites rep =
       coverage_loop (arith E)
         (satlib E (query_or (query req) ''lat'' (Fin 45.42))
                   (query_or (query req) ''lng'' (Fin (- 75.7)))
                   (query_or (query req) ''alt'' (Fin 100)))
         (params_constellation req) 0 tleList []"
    by (rule coverage_handler_cases)
  from getConstellationTLEs_parsed[OF tles] obtain body where "tleList = parseTLEs body"
    by blast
  then have "length tleList \<le> 30"
    by (simp add: parseTLEs_length)
  moreover have "length (satellites rep) \<le> length tleList"
    unfolding sats by (rule coverage_loop_length)
  ultimately show "length (satellites rep) \<le> 30"
    by (rule order_trans[rotated])
qed

lemma always_far_satellites:
  "length (coverage_loop M always_far c 0 [iss_tle, hst_tle] []) = 2"
proof -
  have "length (coverage_step M (Geometry far_geometry) c sat []) = 1" for sat
    by (simp add: coverage_step_def Let_def)
  then show ?thesis
    using coverage_loop_split[of M always_far c 0 "[iss_tle]" hst_tle "[]"]
    by (simp add: always_far_def)
qed

theorem response_ignores_maxSats_witness:
  "coverage_handler far_env capped_request stale_world =
     coverage_handler far_env plain_request stale_world \<and>
   (\<exists>rep. fst (coverage_handler far_env capped_request stale_world) = Json200 rep \<and>
          length (satellites rep) = 2)"
proof -
  let ?w' = "snd (getConstellationTLEs net_up ''iridium'' stale_world)"
  have req: "capped_request = plain_request\<lparr>query := (query plain_request)(''maxSats'' := Some ''1'')\<rparr>"
    by (simp add: capped_request_def plain_request_def)
  have same: "coverage_handler far_env capped_request stale_world =
     coverage_handler far_env plain_request stale_world"
    unfolding req using response_ignores_maxSats[of far_env plain_request "Some ''1''" stale_world]
    by (rule conjunct1)
  have "getConstellationTLEs (axios_get far_env) (params_constellation plain_request)
          stale_world = (Inr [iss_tle, hst_tle], ?w')"
    using stale_world_tles by (simp add: far_env_def plain_request_def)
  from coverage_handler_report[OF this]
  obtain rep where rep: "coverage_handler far_env plain_request stale_world = (Json200 rep, ?w')"
    and "satellites rep =
       coverage_loop (arith far_env)
         (satlib far_env (query_or (query plain_request) ''lat'' (Fin 45.42))
                   (query_or (query plain_request) ''lng'' (Fin (- 75.7)))
                   (query_or (query plain_request) ''alt'' (Fin 100)))
         (params_constellation plain_request) 0 [iss_tle, hst_tle] []"
    by blast
  then have "length (satellites rep) = 2"
    by (simp add: far_env_def plain_request_def always_far_satellites
        del: coverage_loop.simps)
  with same rep show ?thesis by simp
qed

end
